theory Spec2Isabelle
  imports Main
begin

section \<open>The quiz-session controller of frontend/src/App.js\<close>

text \<open>
  The React component \<open>App\<close> keeps its session in state variables (\<open>useState\<close>) and
  changes them from event handlers. JavaScript runs one handler at a time; an
  \<open>async\<close> handler runs up to its first \<open>await\<close>, is suspended, and its remainder runs as
  a later event of its own, when the awaited \<open>fetch\<close> settles. The remainder still reads
  the constants of the render in which the handler was created (its closure), while a
  functional update \<open>setX(prev => ...)\<close> reads the state of the moment.

  The embedding follows that: the state variables are a record, the network requests and
  the alerts are logs, every suspended handler is an entry of a list together with its
  closure, and every event (a click, a timer tick, a response) is one step.
\<close>

subsection \<open>Data\<close>

datatype screen = Specialization | UserInfo | Difficulty | Test | Result | Stats

record userData =
  telegram_id :: int
  full_name :: string
  position :: string
  department :: string
  specialization :: string
  difficulty :: string

record spec_item =
  s_id :: string
  s_name :: string

record difficulty_item =
  d_id :: string
  d_name :: string
  d_questions :: nat
  d_time_minutes :: int

record question =
  q_id :: int
  q_question :: string
  q_options :: "string list"

record test_result =
  percentage :: int
  grade :: string
  correct :: nat
  total :: nat

record stats_data =
  total_tests :: nat
  avg_percentage :: int
  best_percentage :: int

text \<open>
  The state variables of \<open>App\<close> (lines 12-32), under their own names. A \<open>Set\<close> of option
  numbers is a set of naturals, the object \<open>answersHistory\<close> a map from question position
  to such a set. \<open>timeLeft\<close> is a JavaScript number, here an integer.
\<close>

record state =
  screen :: screen
  userData :: userData
  specializations :: "spec_item list"
  difficulties :: "difficulty_item list"
  questions :: "question list"
  currentQuestion :: nat
  selectedAnswers :: "nat set"
  answersHistory :: "nat \<rightharpoonup> nat set"
  sessionId :: string
  timeLeft :: int
  testResult :: "test_result option"
  stats :: "stats_data option"
  loading :: bool

text \<open>
  \<open>const tg = window.Telegram?.WebApp\<close> (line 8): the host platform's object when the
  page runs inside it, with the user it names when it names one
  (\<open>tg.initDataUnsafe?.user\<close>, of which only \<open>id\<close> is read).
\<close>

datatype webapp = WebApp "int option"

text \<open>The requests sent with \<open>fetch\<close>, and the alerts the host platform has shown.\<close>

datatype request =
    GetSpecializations
  | GetDifficulties
  | PostStart userData
  | PostAnswer int string int "nat set"
  | PostFinish int string
  | GetStats int

datatype alert =
    Alert_specializations
  | Alert_difficulties
  | Alert_start
  | Alert_finish
  | Alert_stats
  | Alert_fill_all_fields

text \<open>
  A suspended \<open>async\<close> function, waiting for its \<open>fetch\<close>. Only \<open>submitAnswer\<close> reads its
  closure after the \<open>await\<close>, so only its entry carries the render it was created in.
\<close>

datatype cont =
    K_loadSpecializations
  | K_loadDifficulties
  | K_startTest
  | K_submitAnswer state
  | K_handleFinishTest
  | K_loadStats

text \<open>
  How a \<open>fetch\<close> settles: \<open>Failure\<close> is a rejected \<open>fetch\<close> or a body that \<open>response.json()\<close>
  rejects (the \<open>catch\<close> branch runs); the others carry the parsed body. \<open>fetch\<close> resolves on
  every HTTP status, so \<open>AnswerOk\<close> stands for any response to an answer at all.
  \<open>FinishOk None\<close> is a body without \<open>result\<close>.
\<close>

datatype response =
    Failure
  | SpecsOk "spec_item list"
  | DiffsOk "difficulty_item list"
  | StartOk string "question list" int
  | AnswerOk
  | FinishOk "test_result option"
  | StatsOk stats_data

text \<open>
  The component and its surroundings: the constant \<open>tg\<close> (\<open>None\<close> outside the host
  platform), the state variables, the interval of the timer effect when one is armed
  (with the render whose \<open>handleFinishTest\<close> it calls), the suspended handlers, and the
  two logs.
\<close>

record world =
  tg :: "webapp option"
  st :: state
  timer :: "state option"
  pending :: "cont list"
  requests :: "request list"
  alerts :: "alert list"

text \<open>
  \<open>tg?.showAlert(message)\<close>: the host platform shows the message; outside the host
  platform the call does nothing and the user sees nothing.
\<close>

definition showAlert :: "alert \<Rightarrow> world \<Rightarrow> world" where
  "showAlert a w = (case tg w of None \<Rightarrow> w | Some app \<Rightarrow> w\<lparr>alerts := alerts w @ [a]\<rparr>)"

subsection \<open>The answer tracker (lines 208-225)\<close>

text \<open>\<open>answersHistory[k] || new Set()\<close>: a \<open>Set\<close> object is truthy even when empty.\<close>

definition restore :: "(nat \<rightharpoonup> nat set) \<Rightarrow> nat \<Rightarrow> nat set" where
  "restore h k = (case h k of None \<Rightarrow> {} | Some s \<Rightarrow> s)"

text \<open>The updater of \<open>toggleAnswer\<close>, on the value of the set.\<close>

definition toggle :: "nat \<Rightarrow> nat set \<Rightarrow> nat set" where
  "toggle index prev = (if index \<in> prev then prev - {index} else insert index prev)"

definition toggleAnswer :: "nat \<Rightarrow> state \<Rightarrow> state" where
  "toggleAnswer index s = s\<lparr>selectedAnswers := toggle index (selectedAnswers s)\<rparr>"

text \<open>
  \<open>goToPreviousQuestion\<close> is synchronous and is called from the current render, so the
  \<open>prev\<close> of its update and the \<open>currentQuestion\<close> of its closure are the same number.
\<close>

definition goToPreviousQuestion :: "state \<Rightarrow> state" where
  "goToPreviousQuestion s =
     (if 0 < currentQuestion s
      then s\<lparr>currentQuestion := currentQuestion s - 1,
             selectedAnswers := restore (answersHistory s) (currentQuestion s - 1)\<rparr>
      else s)"

subsection \<open>The asynchronous handlers, up to their \<open>await\<close>\<close>

definition loadSpecializations :: "world \<Rightarrow> world" where
  "loadSpecializations w =
     w\<lparr>requests := requests w @ [GetSpecializations],
       pending := pending w @ [K_loadSpecializations]\<rparr>"

definition loadDifficulties :: "world \<Rightarrow> world" where
  "loadDifficulties w =
     w\<lparr>requests := requests w @ [GetDifficulties],
       pending := pending w @ [K_loadDifficulties]\<rparr>"

text \<open>\<open>startTest\<close> sends the \<open>userData\<close> of its closure \<open>c\<close>.\<close>

definition startTest :: "state \<Rightarrow> world \<Rightarrow> world" where
  "startTest c w =
     w\<lparr>st := (st w)\<lparr>loading := True\<rparr>,
       requests := requests w @ [PostStart (userData c)],
       pending := pending w @ [K_startTest]\<rparr>"

text \<open>
  \<open>handleFinishTest\<close> (lines 153-163): it sets \<open>loading\<close> and sends the request, whatever
  the state is; there is no test before the \<open>fetch\<close>.
\<close>

definition handleFinishTest :: "state \<Rightarrow> world \<Rightarrow> world" where
  "handleFinishTest c w =
     w\<lparr>st := (st w)\<lparr>loading := True\<rparr>,
       requests := requests w @ [PostFinish (telegram_id (userData c)) (sessionId c)],
       pending := pending w @ [K_handleFinishTest]\<rparr>"

text \<open>
  \<open>submitAnswer\<close> up to its \<open>await\<close> (lines 122-133). \<open>questions[currentQuestion].id\<close> throws
  inside the \<open>try\<close> when the position is out of range, and the \<open>catch\<close> only logs.
\<close>

definition submitAnswer :: "state \<Rightarrow> world \<Rightarrow> world" where
  "submitAnswer c w =
     (if currentQuestion c < length (questions c)
      then w\<lparr>requests := requests w @
                [PostAnswer (telegram_id (userData c)) (sessionId c)
                   (q_id (questions c ! currentQuestion c)) (selectedAnswers c)],
              pending := pending w @ [K_submitAnswer c]\<rparr>
      else w)"

definition loadStats :: "state \<Rightarrow> world \<Rightarrow> world" where
  "loadStats c w =
     w\<lparr>requests := requests w @ [GetStats (telegram_id (userData c))],
       pending := pending w @ [K_loadStats]\<rparr>"

subsection \<open>The synchronous handlers (lines 189-206)\<close>

definition selectSpecialization :: "spec_item \<Rightarrow> state \<Rightarrow> state" where
  "selectSpecialization spec s =
     s\<lparr>userData := (userData s)\<lparr>specialization := s_id spec\<rparr>, screen := UserInfo\<rparr>"

text \<open>\<open>!x\<close> of a string is true for the empty string only.\<close>

definition submitUserInfo :: "world \<Rightarrow> world" where
  "submitUserInfo w =
     (if full_name (userData (st w)) = [] \<or> position (userData (st w)) = []
         \<or> department (userData (st w)) = []
      then showAlert Alert_fill_all_fields w
      else (let w' = loadDifficulties w in w'\<lparr>st := (st w')\<lparr>screen := Difficulty\<rparr>\<rparr>))"

text \<open>
  \<open>selectDifficulty\<close> updates \<open>userData\<close> and calls \<open>startTest\<close>, which is the function of
  the current render and sends that render's \<open>userData\<close>.
\<close>

definition selectDifficulty :: "difficulty_item \<Rightarrow> world \<Rightarrow> world" where
  "selectDifficulty diff w =
     startTest (st w)
       (w\<lparr>st := (st w)\<lparr>userData := (userData (st w))\<lparr>difficulty := d_id diff\<rparr>\<rparr>\<rparr>)"

subsection \<open>The handlers after their \<open>await\<close>\<close>

text \<open>
  The responses that are followed: a failure, or a body of the shape that the endpoint
  of the request returns. The body of an answer is never read, so there any response
  will do. What a handler does with a body of another shape (fields that are
  \<open>undefined\<close>, \<open>NaN\<close> seconds) is not followed: such a pair is no event, and the
  handlers below leave the world as it is for it.
\<close>

fun answers :: "cont \<Rightarrow> response \<Rightarrow> bool" where
  "answers k Failure = True"
| "answers K_loadSpecializations (SpecsOk xs) = True"
| "answers K_loadDifficulties (DiffsOk xs) = True"
| "answers K_startTest (StartOk sid qs minutes) = True"
| "answers (K_submitAnswer c) r = True"
| "answers K_handleFinishTest (FinishOk res) = True"
| "answers K_loadStats (StatsOk d) = True"
| "answers k r = False"

text \<open>
  The remainder of \<open>submitAnswer\<close> (lines 135-150) with closure \<open>c\<close>: the history update and
  the cursor update are functional (they read the state of the moment, \<open>st w\<close>), while
  the position written, the set written, the bound test and the restored selection are
  read from the closure.
\<close>

definition submitAnswer_resume :: "state \<Rightarrow> response \<Rightarrow> world \<Rightarrow> world" where
  "submitAnswer_resume c r w =
     (if r = Failure then w
      else
        (let w1 = w\<lparr>st := (st w)\<lparr>answersHistory :=
                     (answersHistory (st w))(currentQuestion c \<mapsto> selectedAnswers c)\<rparr>\<rparr>
         in if int (currentQuestion c) < int (length (questions c)) - 1
            then w1\<lparr>st := (st w1)\<lparr>currentQuestion := currentQuestion (st w1) + 1,
                       selectedAnswers := restore (answersHistory c) (currentQuestion c + 1)\<rparr>\<rparr>
            else handleFinishTest c w1))"

definition handleFinishTest_resume :: "response \<Rightarrow> world \<Rightarrow> world" where
  "handleFinishTest_resume r w =
     (case r of
        FinishOk res \<Rightarrow>
          w\<lparr>st := (st w)\<lparr>testResult := res, screen := Result, loading := False\<rparr>\<rparr>
      | Failure \<Rightarrow>
          (let w' = showAlert Alert_finish w in w'\<lparr>st := (st w')\<lparr>loading := False\<rparr>\<rparr>)
      | _ \<Rightarrow> w)"

definition startTest_resume :: "response \<Rightarrow> world \<Rightarrow> world" where
  "startTest_resume r w =
     (case r of
        StartOk sid qs minutes \<Rightarrow>
          w\<lparr>st := (st w)\<lparr>sessionId := sid, questions := qs, timeLeft := minutes * 60,
                 currentQuestion := 0, selectedAnswers := {}, answersHistory := Map.empty,
                 screen := Test, loading := False\<rparr>\<rparr>
      | Failure \<Rightarrow>
          (let w' = showAlert Alert_start w in w'\<lparr>st := (st w')\<lparr>loading := False\<rparr>\<rparr>)
      | _ \<Rightarrow> w)"

definition loadSpecializations_resume :: "response \<Rightarrow> world \<Rightarrow> world" where
  "loadSpecializations_resume r w =
     (case r of
        SpecsOk xs \<Rightarrow> w\<lparr>st := (st w)\<lparr>specializations := xs\<rparr>\<rparr>
      | Failure \<Rightarrow> showAlert Alert_specializations w
      | _ \<Rightarrow> w)"

definition loadDifficulties_resume :: "response \<Rightarrow> world \<Rightarrow> world" where
  "loadDifficulties_resume r w =
     (case r of
        DiffsOk xs \<Rightarrow> w\<lparr>st := (st w)\<lparr>difficulties := xs\<rparr>\<rparr>
      | Failure \<Rightarrow> showAlert Alert_difficulties w
      | _ \<Rightarrow> w)"

definition loadStats_resume :: "response \<Rightarrow> world \<Rightarrow> world" where
  "loadStats_resume r w =
     (case r of
        StatsOk d \<Rightarrow> w\<lparr>st := (st w)\<lparr>stats := Some d, screen := Stats\<rparr>\<rparr>
      | Failure \<Rightarrow> showAlert Alert_stats w
      | _ \<Rightarrow> w)"

fun resume :: "cont \<Rightarrow> response \<Rightarrow> world \<Rightarrow> world" where
  "resume K_loadSpecializations r w = loadSpecializations_resume r w"
| "resume K_loadDifficulties r w = loadDifficulties_resume r w"
| "resume K_startTest r w = startTest_resume r w"
| "resume (K_submitAnswer c) r w = submitAnswer_resume c r w"
| "resume K_handleFinishTest r w = handleFinishTest_resume r w"
| "resume K_loadStats r w = loadStats_resume r w"

subsection \<open>Events\<close>

text \<open>
  What can happen to the component: the buttons and inputs of the six screens (lines
  243-529), a tick of the interval, and the settling of the \<open>i\<close>-th suspended handler.
\<close>

datatype event =
    ClickSpecialization nat
  | ClickStats
  | TypeFullName string
  | TypePosition string
  | TypeDepartment string
  | ClickUserInfoBack
  | ClickUserInfoNext
  | ClickDifficulty nat
  | ClickDifficultyBack
  | ClickOption nat
  | ClickPrevious
  | ClickSubmit
  | ClickResultExit
  | ClickStatsBack
  | Tick
  | Settle nat response

text \<open>
  The callback of \<open>setInterval\<close> (lines 60-68): it runs only while an interval is armed,
  its updater reads the \<open>timeLeft\<close> of the moment, and the \<open>handleFinishTest\<close> it calls is
  the one of the render that armed the interval. The updater is run once for a tick.
\<close>

definition tick :: "world \<Rightarrow> world" where
  "tick w =
     (case timer w of
        None \<Rightarrow> w
      | Some c \<Rightarrow>
          if timeLeft (st w) \<le> 1
          then (let w' = handleFinishTest c w in w'\<lparr>st := (st w')\<lparr>timeLeft := 0\<rparr>\<rparr>)
          else w\<lparr>st := (st w)\<lparr>timeLeft := timeLeft (st w) - 1\<rparr>\<rparr>)"

definition settle :: "nat \<Rightarrow> response \<Rightarrow> world \<Rightarrow> world" where
  "settle i r w =
     (if i < length (pending w) \<and> answers (pending w ! i) r
      then resume (pending w ! i) r (w\<lparr>pending := take i (pending w) @ drop (Suc i) (pending w)\<rparr>)
      else w)"

text \<open>
  A button acts only on the screen that renders it and while it is not \<open>disabled\<close>.
  \<open>renderTest\<close> reads \<open>questions[currentQuestion].question\<close>, so the test screen has
  buttons only while the cursor is inside the list; \<open>renderResult\<close> and \<open>renderStats\<close>
  render nothing without their data. What becomes of the component after a render that
  throws is decided outside \<open>App.js\<close> and is not followed here beyond the missing
  buttons. The overlay shown while \<open>loading\<close> belongs to the style sheet; in the code
  only the \<open>disabled\<close> attributes stop a click.
\<close>

fun handle :: "event \<Rightarrow> world \<Rightarrow> world" where
  "handle (ClickSpecialization i) w =
     (if screen (st w) = Specialization \<and> i < length (specializations (st w))
      then w\<lparr>st := selectSpecialization (specializations (st w) ! i) (st w)\<rparr> else w)"
| "handle ClickStats w =
     (if screen (st w) = Specialization then loadStats (st w) w else w)"
| "handle (TypeFullName x) w =
     (if screen (st w) = UserInfo
      then w\<lparr>st := (st w)\<lparr>userData := (userData (st w))\<lparr>full_name := x\<rparr>\<rparr>\<rparr> else w)"
| "handle (TypePosition x) w =
     (if screen (st w) = UserInfo
      then w\<lparr>st := (st w)\<lparr>userData := (userData (st w))\<lparr>position := x\<rparr>\<rparr>\<rparr> else w)"
| "handle (TypeDepartment x) w =
     (if screen (st w) = UserInfo
      then w\<lparr>st := (st w)\<lparr>userData := (userData (st w))\<lparr>department := x\<rparr>\<rparr>\<rparr> else w)"
| "handle ClickUserInfoBack w =
     (if screen (st w) = UserInfo then w\<lparr>st := (st w)\<lparr>screen := Specialization\<rparr>\<rparr> else w)"
| "handle ClickUserInfoNext w =
     (if screen (st w) = UserInfo then submitUserInfo w else w)"
| "handle (ClickDifficulty i) w =
     (if screen (st w) = Difficulty \<and> \<not> loading (st w) \<and> i < length (difficulties (st w))
      then selectDifficulty (difficulties (st w) ! i) w else w)"
| "handle ClickDifficultyBack w =
     (if screen (st w) = Difficulty then w\<lparr>st := (st w)\<lparr>screen := UserInfo\<rparr>\<rparr> else w)"
| "handle (ClickOption i) w =
     (if screen (st w) = Test \<and> currentQuestion (st w) < length (questions (st w))
         \<and> i < length (q_options (questions (st w) ! currentQuestion (st w)))
      then w\<lparr>st := toggleAnswer (i + 1) (st w)\<rparr> else w)"
| "handle ClickPrevious w =
     (if screen (st w) = Test \<and> currentQuestion (st w) < length (questions (st w))
         \<and> currentQuestion (st w) \<noteq> 0
      then w\<lparr>st := goToPreviousQuestion (st w)\<rparr> else w)"
| "handle ClickSubmit w =
     (if screen (st w) = Test \<and> currentQuestion (st w) < length (questions (st w))
         \<and> selectedAnswers (st w) \<noteq> {}
      then submitAnswer (st w) w else w)"
| "handle ClickResultExit w =
     (if screen (st w) = Result \<and> testResult (st w) \<noteq> None
      then w\<lparr>st := (st w)\<lparr>screen := Specialization\<rparr>\<rparr> else w)"
| "handle ClickStatsBack w =
     (if screen (st w) = Stats \<and> stats (st w) \<noteq> None
      then w\<lparr>st := (st w)\<lparr>screen := Specialization\<rparr>\<rparr> else w)"
| "handle Tick w = tick w"
| "handle (Settle i r) w = settle i r w"

text \<open>
  The timer effect (lines 58-72) has the dependencies \<open>[screen, timeLeft]\<close>: after an
  event that changed one of them, the old interval is cleared and a new one is armed
  if the screen is the test and time is left; otherwise the interval stays as it is.
\<close>

definition timer_effect :: "state \<Rightarrow> world \<Rightarrow> world" where
  "timer_effect before w =
     (if screen (st w) = screen before \<and> timeLeft (st w) = timeLeft before then w
      else w\<lparr>timer := (if screen (st w) = Test \<and> 0 < timeLeft (st w)
                        then Some (st w) else None)\<rparr>)"

definition step :: "event \<Rightarrow> world \<Rightarrow> world" where
  "step e w = timer_effect (st w) (handle e w)"

fun exec :: "event list \<Rightarrow> world \<Rightarrow> world" where
  "exec [] w = w"
| "exec (e # es) w = exec es (step e w)"

text \<open>
  The component after mounting (lines 12-55), inside the host platform \<open>host\<close> or
  outside of any: the initial values, the identity of the host platform's user when
  there is one, and \<open>loadSpecializations\<close> under way.
\<close>

definition init_state :: "webapp option \<Rightarrow> state" where
  "init_state host =
     \<lparr>screen = Specialization,
      userData = \<lparr>telegram_id = (case host of Some (WebApp (Some u)) \<Rightarrow> u | _ \<Rightarrow> 0),
                  full_name = [], position = [], department = [],
                  specialization = [], difficulty = []\<rparr>,
      specializations = [], difficulties = [], questions = [],
      currentQuestion = 0, selectedAnswers = {}, answersHistory = Map.empty,
      sessionId = [], timeLeft = 0, testResult = None, stats = None, loading = False\<rparr>"

definition init :: "webapp option \<Rightarrow> world" where
  "init host =
     loadSpecializations
       \<lparr>tg = host, st = init_state host, timer = None, pending = [], requests = [],
        alerts = []\<rparr>"

subsection \<open>Observations used by the properties\<close>

fun is_finish :: "request \<Rightarrow> bool" where
  "is_finish (PostFinish tid sid) = True"
| "is_finish other = False"

text \<open>How many times \<open>POST /api/test/finish\<close> has been sent.\<close>

definition finish_requests :: "world \<Rightarrow> nat" where
  "finish_requests w = length (filter is_finish (requests w))"

text \<open>An answer request carries at least one selected option.\<close>

fun answer_nonempty :: "request \<Rightarrow> bool" where
  "answer_nonempty (PostAnswer tid sid qid answer) = (answer \<noteq> {})"
| "answer_nonempty other = True"

text \<open>
  The two places that call \<open>handleFinishTest\<close>: the updater of an armed interval when at
  most one second is left (line 62), and the remainder of a \<open>submitAnswer\<close> whose
  \<open>fetch\<close> resolved and whose closure is not before the last question (line 145).
\<close>

fun finalize_trigger :: "event \<Rightarrow> world \<Rightarrow> bool" where
  "finalize_trigger Tick w = (timer w \<noteq> None \<and> timeLeft (st w) \<le> 1)"
| "finalize_trigger (Settle i r) w =
     (i < length (pending w) \<and> r \<noteq> Failure \<and>
      (case pending w ! i of
         K_submitAnswer c \<Rightarrow> \<not> int (currentQuestion c) < int (length (questions c)) - 1
       | _ \<Rightarrow> False))"
| "finalize_trigger other w = False"

fun triggers :: "event list \<Rightarrow> world \<Rightarrow> nat" where
  "triggers [] w = 0"
| "triggers (e # es) w = (if finalize_trigger e w then 1 else 0) + triggers es (step e w)"

text \<open>A session start: the response to \<open>POST /api/test/start\<close> arrives with a session.\<close>

fun session_start :: "event \<Rightarrow> world \<Rightarrow> bool" where
  "session_start (Settle i (StartOk sid qs minutes)) w =
     (i < length (pending w) \<and> pending w ! i = K_startTest)"
| "session_start other w = False"

fun no_session_start :: "event list \<Rightarrow> world \<Rightarrow> bool" where
  "no_session_start [] w = True"
| "no_session_start (e # es) w = (\<not> session_start e w \<and> no_session_start es (step e w))"

text \<open>
  An interval is armed exactly while the test screen is shown and time is left.
\<close>

definition timer_armed_ok :: "world \<Rightarrow> bool" where
  "timer_armed_ok w = ((timer w \<noteq> None) = (screen (st w) = Test \<and> 0 < timeLeft (st w)))"

text \<open>The selection on screen is the recorded one of the question on screen.\<close>

definition reflects_history :: "state \<Rightarrow> bool" where
  "reflects_history s =
     (selectedAnswers s = restore (answersHistory s) (currentQuestion s))"

text \<open>
  A click on the submit button whose response is the very next event: no other event
  comes between the two halves of \<open>submitAnswer\<close>.
\<close>

definition submit_and_settle :: "response \<Rightarrow> world \<Rightarrow> world" where
  "submit_and_settle r w = step (Settle (length (pending w)) r) (step ClickSubmit w)"

text \<open>
  The learner's operations on the test screen, each handled to its end before the
  next: a toggle, a submission with its acknowledgement, a backward navigation.
\<close>

datatype user_op = Toggle nat | Submit | Back

fun do_op :: "user_op \<Rightarrow> world \<Rightarrow> world" where
  "do_op (Toggle i) w = step (ClickOption i) w"
| "do_op Submit w = submit_and_settle AnswerOk w"
| "do_op Back w = step ClickPrevious w"

fun run_ops :: "user_op list \<Rightarrow> world \<Rightarrow> world" where
  "run_ops [] w = w"
| "run_ops (x # xs) w = run_ops xs (do_op x w)"

definition submit_enabled :: "world \<Rightarrow> bool" where
  "submit_enabled w =
     (screen (st w) = Test \<and> currentQuestion (st w) < length (questions (st w))
      \<and> selectedAnswers (st w) \<noteq> {})"

text \<open>
  The set last recorded for position \<open>k\<close> by a forward submission of a run: the selection
  that was on screen at the last submission made while the cursor was at \<open>k\<close>.
\<close>

fun recorded :: "user_op list \<Rightarrow> world \<Rightarrow> nat \<Rightarrow> nat set option" where
  "recorded [] w k = None"
| "recorded (x # xs) w k =
     (case recorded xs (do_op x w) k of
        Some s \<Rightarrow> Some s
      | None \<Rightarrow>
          if x = Submit \<and> submit_enabled w \<and> currentQuestion (st w) = k
          then Some (selectedAnswers (st w)) else None)"

subsection \<open>The \<open>Set\<close> objects behind the selection\<close>

text \<open>
  \<open>selectedAnswers\<close> and the entries of \<open>answersHistory\<close> are references to \<open>Set\<close>
  objects, and \<open>goToPreviousQuestion\<close> and \<open>submitAnswer\<close> make \<open>selectedAnswers\<close> refer to
  an object of the history. For what \<open>toggleAnswer\<close> does to shared objects, the objects
  are kept in a store: the list of all \<open>Set\<close> objects made so far, a reference being a
  position in it.
\<close>

record set_store =
  objects :: "nat set list"
  selectedAnswers_ref :: nat
  answersHistory_ref :: "nat \<rightharpoonup> nat"

text \<open>
  Lines 209-217 object by object: \<open>new Set(prev)\<close> makes a new object with the members of
  \<open>prev\<close>; \<open>delete\<close> and \<open>add\<close> change that new object in place; the new object becomes
  \<open>selectedAnswers\<close>.
\<close>

definition toggleAnswer_store :: "nat \<Rightarrow> set_store \<Rightarrow> set_store" where
  "toggleAnswer_store index h =
     (let prev = selectedAnswers_ref h;
          newSet = length (objects h);
          h1 = h\<lparr>objects := objects h @ [objects h ! prev]\<rparr>;
          h2 = (if index \<in> objects h1 ! newSet
                then h1\<lparr>objects := (objects h1)[newSet := objects h1 ! newSet - {index}]\<rparr>
                else h1\<lparr>objects := (objects h1)[newSet := insert index (objects h1 ! newSet)]\<rparr>)
      in h2\<lparr>selectedAnswers_ref := newSet\<rparr>)"

definition selection_of :: "set_store \<Rightarrow> nat set" where
  "selection_of h = objects h ! selectedAnswers_ref h"

definition history_of :: "set_store \<Rightarrow> (nat \<rightharpoonup> nat set)" where
  "history_of h k = map_option (\<lambda>a. objects h ! a) (answersHistory_ref h k)"

text \<open>Every reference is to an object that exists.\<close>

definition store_ok :: "set_store \<Rightarrow> bool" where
  "store_ok h =
     (selectedAnswers_ref h < length (objects h) \<and>
      (\<forall>k a. answersHistory_ref h k = Some a \<longrightarrow> a < length (objects h)))"

subsection \<open>A session to run\<close>

definition question_a :: question where
  "question_a = \<lparr>q_id = 11, q_question = ''A?'', q_options = [''a1'', ''a2'', ''a3'']\<rparr>"

definition question_b :: question where
  "question_b = \<lparr>q_id = 12, q_question = ''B?'', q_options = [''b1'', ''b2'', ''b3'']\<rparr>"

definition question_c :: question where
  "question_c = \<lparr>q_id = 13, q_question = ''C?'', q_options = [''c1'', ''c2'', ''c3'']\<rparr>"

text \<open>
  From the mounted component to the first question: the specializations arrive, one is
  chosen, the profile is typed and submitted, the difficulties arrive, one is chosen,
  and the session arrives with its questions and its minutes.
\<close>

definition open_session :: "question list \<Rightarrow> int \<Rightarrow> event list" where
  "open_session qs minutes =
     [Settle 0 (SpecsOk [\<lparr>s_id = ''civil'', s_name = ''Civil''\<rparr>]),
      ClickSpecialization 0,
      TypeFullName ''Ivanov I.I.'', TypePosition ''Pristav'', TypeDepartment ''OSP 1'',
      ClickUserInfoNext,
      Settle 0 (DiffsOk [\<lparr>d_id = ''easy'', d_name = ''Easy'',
                          d_questions = length qs, d_time_minutes = minutes\<rparr>]),
      ClickDifficulty 0,
      Settle 0 (StartOk ''s1'' qs minutes)]"

definition test_state :: "question list \<Rightarrow> int \<Rightarrow> state" where
  "test_state qs minutes =
     \<lparr>screen = Test,
      userData = \<lparr>telegram_id = 0, full_name = ''Ivanov I.I.'', position = ''Pristav'',
                  department = ''OSP 1'', specialization = ''civil'', difficulty = ''easy''\<rparr>,
      specializations = [\<lparr>s_id = ''civil'', s_name = ''Civil''\<rparr>],
      difficulties = [\<lparr>d_id = ''easy'', d_name = ''Easy'',
                       d_questions = length qs, d_time_minutes = minutes\<rparr>],
      questions = qs, currentQuestion = 0, selectedAnswers = {},
      answersHistory = Map.empty, sessionId = ''s1'', timeLeft = minutes * 60,
      testResult = None, stats = None, loading = False\<rparr>"

definition test_world :: "question list \<Rightarrow> int \<Rightarrow> world" where
  "test_world qs minutes =
     \<lparr>tg = None,
      st = test_state qs minutes,
      timer = (if 0 < minutes then Some (test_state qs minutes) else None),
      pending = [],
      requests = [GetSpecializations, GetDifficulties,
                  PostStart \<lparr>telegram_id = 0, full_name = ''Ivanov I.I.'',
                     position = ''Pristav'', department = ''OSP 1'',
                     specialization = ''civil'', difficulty = []\<rparr>],
      alerts = []\<rparr>"

subsection \<open>Runs of the component\<close>

text \<open>
  One question and one minute: the learner selects an option and 59 seconds pass.
\<close>

definition last_second :: "event list" where
  "last_second = open_session [question_a] 1 @ [ClickOption 0] @ replicate 59 Tick"

text \<open>
  Then the learner submits, the answer is acknowledged, and the last second passes
  before the response to the finish request.
\<close>

definition expiry_race :: "event list" where
  "expiry_race = last_second @ [ClickSubmit, Settle 0 AnswerOk, Tick]"

text \<open>Two questions: an answer is submitted and the request fails.\<close>

definition failed_answer :: "event list" where
  "failed_answer =
     open_session [question_a, question_b] 1 @ [ClickOption 0, ClickSubmit, Settle 0 Failure]"

text \<open>
  Two questions: the submit button is clicked twice before the first response, then
  both responses arrive.
\<close>

definition double_submit :: "event list" where
  "double_submit =
     open_session [question_a, question_b] 1
       @ [ClickOption 0, ClickSubmit, ClickSubmit, Settle 0 AnswerOk, Settle 0 AnswerOk]"

text \<open>
  Three questions: question 0 is answered with option 1; on question 1 option 2 is
  selected and submitted, the back button is clicked before the response, and then
  the response arrives.
\<close>

definition back_during_submit :: "event list" where
  "back_during_submit =
     open_session [question_a, question_b, question_c] 1
       @ [ClickOption 0, ClickSubmit, Settle 0 AnswerOk,
          ClickOption 1, ClickSubmit, ClickPrevious, Settle 0 AnswerOk]"

text \<open>
  Two questions: question 0 is answered with option 1, and on question 1 options 2 and 3
  are selected but not submitted.
\<close>

definition unsaved_toggles :: "event list" where
  "unsaved_toggles =
     open_session [question_a, question_b] 1
       @ [ClickOption 0, ClickSubmit, Settle 0 AnswerOk, ClickOption 1, ClickOption 2]"

text \<open>The profile screen with the position left empty.\<close>

definition incomplete_profile :: "event list" where
  "incomplete_profile =
     [Settle 0 (SpecsOk [\<lparr>s_id = ''civil'', s_name = ''Civil''\<rparr>]), ClickSpecialization 0,
      TypeFullName ''Ivanov I.I.'', TypeDepartment ''OSP 1'']"

text \<open>
  A store in which \<open>selectedAnswers\<close> is the very object recorded for question 0, as
  after going back to it.
\<close>

definition shared_store :: set_store where
  "shared_store =
     \<lparr>objects = [{1, 3}], selectedAnswers_ref = 0, answersHistory_ref = [0 \<mapsto> 0]\<rparr>"

section \<open>Properties\<close>

subsection \<open>Unfolding the handlers\<close>

lemmas handler_defs =
  loadSpecializations_def loadDifficulties_def startTest_def handleFinishTest_def
  submitAnswer_def loadStats_def selectSpecialization_def submitUserInfo_def
  selectDifficulty_def submitAnswer_resume_def handleFinishTest_resume_def
  startTest_resume_def loadSpecializations_resume_def loadDifficulties_resume_def
  loadStats_resume_def toggleAnswer_def toggle_def goToPreviousQuestion_def
  restore_def tick_def settle_def timer_effect_def step_def Let_def

lemmas session_defs =
  open_session_def test_world_def test_state_def init_def init_state_def
  question_a_def question_b_def question_c_def

text \<open>An alert touches nothing but the log of alerts.\<close>

lemma showAlert_frame [simp]:
  "st (showAlert a w) = st w"
  "timer (showAlert a w) = timer w"
  "pending (showAlert a w) = pending w"
  "requests (showAlert a w) = requests w"
  "tg (showAlert a w) = tg w"
  by (simp_all add: showAlert_def split: option.splits)

text \<open>Whatever answers a submission resumes it: its body is not read.\<close>

lemma answers_submitAnswer [simp]: "answers (K_submitAnswer c) r"
  by (cases r) simp_all

text \<open>The session opened through the screens is the world written out above.\<close>

lemma open_session_world:
  "exec (open_session qs minutes) (init None) = test_world qs minutes"
  by (simp add: open_session_def test_world_def test_state_def init_def init_state_def
      handler_defs)


subsection \<open>Runs\<close>

lemma exec_append: "exec (xs @ ys) w = exec ys (exec xs w)"
  by (induction xs arbitrary: w) simp_all

text \<open>While more than \<open>n\<close> seconds are left, \<open>n\<close> ticks only count down.\<close>

lemma ticks_count_down:
  "timer w \<noteq> None \<Longrightarrow> screen (st w) = Test \<Longrightarrow> int n < timeLeft (st w) \<Longrightarrow>
   exec (replicate n Tick) w
     = w\<lparr>st := (st w)\<lparr>timeLeft := timeLeft (st w) - int n\<rparr>,
         timer := (if n = 0 then timer w
                   else Some ((st w)\<lparr>timeLeft := timeLeft (st w) - int n\<rparr>))\<rparr>"
proof (induction n arbitrary: w)
  case 0
  then show ?case by simp
next
  case (Suc n)
  have "exec (replicate (Suc n) Tick) w = exec (replicate n Tick) (step Tick w)"
    by simp
  also have "step Tick w =
      w\<lparr>st := (st w)\<lparr>timeLeft := timeLeft (st w) - 1\<rparr>,
        timer := Some ((st w)\<lparr>timeLeft := timeLeft (st w) - 1\<rparr>)\<rparr>"
    using Suc.prems by (auto simp: step_def tick_def timer_effect_def)
  also have "exec (replicate n Tick) \<dots> =
      w\<lparr>st := (st w)\<lparr>timeLeft := timeLeft (st w) - int (Suc n)\<rparr>,
        timer := Some ((st w)\<lparr>timeLeft := timeLeft (st w) - int (Suc n)\<rparr>)\<rparr>"
    using Suc.prems by (subst Suc.IH) auto
  finally show ?case by simp
qed

text \<open>The session of one question after 59 of its 60 seconds, an option selected.\<close>

lemma last_second_world:
  "exec last_second (init None)
     = (test_world [question_a] 1)
         \<lparr>st := (test_state [question_a] 1)\<lparr>selectedAnswers := {1}, timeLeft := 1\<rparr>,
           timer := Some ((test_state [question_a] 1)\<lparr>selectedAnswers := {1}, timeLeft := 1\<rparr>)\<rparr>"
proof -
  have a: "exec [ClickOption 0] (test_world [question_a] 1)
      = (test_world [question_a] 1)\<lparr>st := (test_state [question_a] 1)\<lparr>selectedAnswers := {1}\<rparr>\<rparr>"
    by (simp add: session_defs handler_defs)
  show ?thesis
    by (simp only: last_second_def exec_append open_session_world a)
       (subst ticks_count_down; simp add: session_defs)
qed

lemma expiry_race_requests:
  "requests (exec expiry_race (init None))
     = requests (test_world [question_a] 1)
         @ [PostAnswer 0 ''s1'' 11 {1}, PostFinish 0 ''s1'', PostFinish 0 ''s1'']"
proof -
  have "exec expiry_race (init None)
      = exec [ClickSubmit, Settle 0 AnswerOk, Tick] (exec last_second (init None))"
    by (simp only: expiry_race_def exec_append)
  then show ?thesis
    by (simp only: last_second_world) (simp add: session_defs handler_defs)
qed

subsection \<open>Finalize calls\<close>

lemma requests_timer_effect [simp]: "requests (timer_effect b w) = requests w"
  by (simp add: timer_effect_def)

lemma finish_requests_resume:
  "finish_requests (resume k r w) =
     finish_requests w +
       (case k of
          K_submitAnswer c \<Rightarrow>
            if r \<noteq> Failure \<and> \<not> int (currentQuestion c) < int (length (questions c)) - 1
            then 1 else 0
        | _ \<Rightarrow> 0)"
  by (cases k; cases r) (simp_all add: finish_requests_def handler_defs)

lemma finish_requests_handle:
  "finish_requests (handle e w) = finish_requests w + (if finalize_trigger e w then 1 else 0)"
proof (cases e)
  case Tick
  then show ?thesis
    by (simp add: finish_requests_def tick_def handleFinishTest_def split: option.splits)
next
  case (Settle i r)
  then show ?thesis
    by (simp add: settle_def finish_requests_resume split: cont.splits)
       (simp add: finish_requests_def)
qed (simp_all add: finish_requests_def handler_defs)

lemma finish_requests_step:
  "finish_requests (step e w) = finish_requests w + (if finalize_trigger e w then 1 else 0)"
  using finish_requests_handle [of e w] by (simp add: step_def finish_requests_def)

text \<open>
  C1, as the code has it. \<open>handleFinishTest\<close> keeps no flag and tests nothing before its
  \<open>fetch\<close>: over any sequence of events from any state, \<open>POST /api/test/finish\<close> is sent once for
  every trigger that occurs (a tick of the armed interval with at most one second left, or
  the resolved response to a submission made on the last question), so as many times as
  there are triggers, not at most once per session.
\<close>

theorem finalize_once_per_trigger:
  "finish_requests (exec es w) = finish_requests w + triggers es w"
  by (induction es arbitrary: w) (simp_all add: finish_requests_step)

text \<open>
  C1, at the run \<open>expiry_race\<close>: the theorem gives the two triggers of that run (the
  submission on the last question, then the expiry), each with its own finish request.
\<close>

theorem finalize_once_per_trigger_witness:
  "finish_requests (init None) = 0 \<and> triggers expiry_race (init None) = 2"
proof -
  have a: "finish_requests (init None) = 0"
    by (simp add: finish_requests_def init_def loadSpecializations_def)
  have b: "finish_requests (exec expiry_race (init None)) = 2"
    by (simp add: finish_requests_def expiry_race_requests test_world_def)
  from finalize_once_per_trigger [of expiry_race "init None"] a b show ?thesis
    by simp
qed

text \<open>
  C1 as stated fails: in the run \<open>expiry_race\<close> the submission of the last question sends
  the finish request of session \<open>s1\<close>, and the timer expiry that follows, with the first
  request still unanswered, sends it again.
\<close>

theorem finalize_at_most_once_counterexample:
  "filter is_finish (requests (exec expiry_race (init None)))
     = [PostFinish 0 ''s1'', PostFinish 0 ''s1'']"
  by (simp add: expiry_race_requests test_world_def)

subsection \<open>A failed answer request\<close>

text \<open>
  C2, as the code has it. The writes of \<open>submitAnswer\<close> come after its \<open>await\<close> inside the
  \<open>try\<close>: when the \<open>fetch\<close> is rejected, the handler ends without any change (history,
  cursor, selection and requests stay as they are, nothing is finalized); when the
  \<open>fetch\<close> resolves, whatever the response, the selection of the closure is written at
  the position of the closure, and the cursor moves on or, on the last question, the
  finish request is sent.
\<close>

theorem submitAnswer_transport_failure:
  assumes "i < length (pending w)" and "pending w ! i = K_submitAnswer c"
  shows "step (Settle i Failure) w
           = w\<lparr>pending := take i (pending w) @ drop (Suc i) (pending w)\<rparr>
    \<and> (r \<noteq> Failure \<longrightarrow>
         answersHistory (st (step (Settle i r) w))
           = (answersHistory (st w))(currentQuestion c \<mapsto> selectedAnswers c)
       \<and> (if int (currentQuestion c) < int (length (questions c)) - 1
          then currentQuestion (st (step (Settle i r) w)) = currentQuestion (st w) + 1
             \<and> requests (step (Settle i r) w) = requests w
          else currentQuestion (st (step (Settle i r) w)) = currentQuestion (st w)
             \<and> requests (step (Settle i r) w)
                 = requests w @ [PostFinish (telegram_id (userData c)) (sessionId c)]))"
  using assms by (simp add: handler_defs)

lemma answer_in_flight:
  "pending (exec (open_session [question_a, question_b] 1 @ [ClickOption 0, ClickSubmit])
             (init None))
     = [K_submitAnswer ((test_state [question_a, question_b] 1)\<lparr>selectedAnswers := {1}\<rparr>)]"
  "st (exec (open_session [question_a, question_b] 1 @ [ClickOption 0, ClickSubmit]) (init None))
     = (test_state [question_a, question_b] 1)\<lparr>selectedAnswers := {1}\<rparr>"
  "requests (exec (open_session [question_a, question_b] 1 @ [ClickOption 0, ClickSubmit])
              (init None))
     = requests (test_world [question_a, question_b] 1) @ [PostAnswer 0 ''s1'' 11 {1}]"
  by (simp_all only: exec_append open_session_world) (simp_all add: session_defs handler_defs)

text \<open>
  C2, at the session of two questions with the answer to question 0 in flight: a
  failure leaves the state as it is, an acknowledgement records \<open>{1}\<close> and moves to
  question 1.
\<close>

theorem submitAnswer_transport_failure_witness:
  "st (step (Settle 0 Failure)
         (exec (open_session [question_a, question_b] 1 @ [ClickOption 0, ClickSubmit])
            (init None)))
     = (test_state [question_a, question_b] 1)\<lparr>selectedAnswers := {1}\<rparr>
   \<and> answersHistory (st (step (Settle 0 AnswerOk)
         (exec (open_session [question_a, question_b] 1 @ [ClickOption 0, ClickSubmit])
            (init None)))) = [0 \<mapsto> {1}]
   \<and> currentQuestion (st (step (Settle 0 AnswerOk)
         (exec (open_session [question_a, question_b] 1 @ [ClickOption 0, ClickSubmit])
            (init None)))) = 1"
proof -
  let ?w = "exec (open_session [question_a, question_b] 1 @ [ClickOption 0, ClickSubmit])
              (init None)"
  let ?c = "(test_state [question_a, question_b] 1)\<lparr>selectedAnswers := {1}\<rparr>"
  have p: "0 < length (pending ?w)" "pending ?w ! 0 = K_submitAnswer ?c"
    by (simp_all add: answer_in_flight(1))
  note t = submitAnswer_transport_failure [OF p, of AnswerOk]
  from t have "st (step (Settle 0 Failure) ?w) = st ?w"
    by simp
  moreover from t have "answersHistory (st (step (Settle 0 AnswerOk) ?w))
      = (answersHistory (st ?w))(0 \<mapsto> {1})"
    by (simp add: test_state_def)
  moreover from t have "currentQuestion (st (step (Settle 0 AnswerOk) ?w))
      = currentQuestion (st ?w) + 1"
    by (simp add: test_state_def)
  ultimately show ?thesis
    by (simp add: answer_in_flight(2)) (simp add: test_state_def)
qed

text \<open>
  C2 as stated fails: in the run \<open>failed_answer\<close> the request for question 0 was sent and
  failed, and the cursor is still on question 0 with nothing recorded for it.
\<close>

theorem submitAnswer_transport_failure_counterexample:
  "PostAnswer 0 ''s1'' 11 {1} \<in> set (requests (exec failed_answer (init None)))
   \<and> screen (st (exec failed_answer (init None))) = Test
   \<and> currentQuestion (st (exec failed_answer (init None))) = 0
   \<and> answersHistory (st (exec failed_answer (init None))) 0 = None
   \<and> finish_requests (exec failed_answer (init None)) = 0"
  by (simp only: failed_answer_def exec_append open_session_world)
     (simp add: session_defs handler_defs finish_requests_def)

subsection \<open>An empty selection\<close>

text \<open>
  C3. The only caller of \<open>submitAnswer\<close> is the submit button, which is \<open>disabled\<close> while
  \<open>selectedAnswers.size === 0\<close>: in a state with an empty selection the submission
  changes nothing at all (no request, no entry in the history, no move of the cursor, no
  finalize).
\<close>

theorem submit_button_refuses_empty_selection:
  assumes "selectedAnswers (st w) = {}"
  shows "step ClickSubmit w = w"
  using assms by (simp add: step_def timer_effect_def)

text \<open>C3, at the first question of a fresh session, where nothing is selected yet.\<close>

theorem submit_button_refuses_empty_selection_witness:
  "selectedAnswers (st (test_world [question_a, question_b] 1)) = {}
   \<and> step ClickSubmit (test_world [question_a, question_b] 1)
       = test_world [question_a, question_b] 1"
proof -
  have e: "selectedAnswers (st (test_world [question_a, question_b] 1)) = {}"
    by (simp add: session_defs)
  from submit_button_refuses_empty_selection [OF e] e show ?thesis
    by simp
qed

text \<open>
  So the component never sends an answer without a selected option, whatever the events.
\<close>

lemma answer_nonempty_resume:
  "list_all answer_nonempty (requests w) \<Longrightarrow> list_all answer_nonempty (requests (resume k r w))"
  by (cases k; cases r) (simp_all add: handler_defs split: option.splits)

lemma answer_nonempty_handle:
  assumes "list_all answer_nonempty (requests w)"
  shows "list_all answer_nonempty (requests (handle e w))"
proof (cases e)
  case (Settle i r)
  with assms show ?thesis
    by (simp add: settle_def answer_nonempty_resume)
qed (use assms in \<open>simp_all add: handler_defs split: option.splits\<close>)

lemma answer_nonempty_exec:
  "list_all answer_nonempty (requests w) \<Longrightarrow> list_all answer_nonempty (requests (exec es w))"
proof (induction es arbitrary: w)
  case Nil
  then show ?case by simp
next
  case (Cons e es)
  from Cons.prems have "list_all answer_nonempty (requests (step e w))"
    using answer_nonempty_handle [of w e] by (simp add: step_def timer_effect_def)
  then show ?case
    by (simp add: Cons.IH)
qed

lemma no_empty_answer_request:
  "PostAnswer tid sid qid {} \<notin> set (requests (exec es (init host)))"
proof
  assume "PostAnswer tid sid qid {} \<in> set (requests (exec es (init host)))"
  moreover have "list_all answer_nonempty (requests (exec es (init host)))"
    by (rule answer_nonempty_exec) (simp add: init_def loadSpecializations_def)
  ultimately have "answer_nonempty (PostAnswer tid sid qid {})"
    unfolding list_all_iff by blast
  then show False
    by simp
qed

subsection \<open>The selection and the history\<close>

text \<open>
  C5, as the code has it. The selection equals the recorded entry of the question on
  screen (the empty set when there is none) right after a session start, right after a
  backward navigation, and right after a forward submission whose response is the next
  event. A toggle changes the selection and leaves cursor and history alone, so a toggle
  made while the two agree makes them differ.
\<close>

theorem selection_reflects_history_after_moves:
  "(session_start e w \<longrightarrow> reflects_history (st (step e w)))
   \<and> (screen (st w) = Test \<and> currentQuestion (st w) < length (questions (st w))
        \<and> currentQuestion (st w) \<noteq> 0 \<longrightarrow> reflects_history (st (step ClickPrevious w)))
   \<and> (screen (st w) = Test \<and> currentQuestion (st w) < length (questions (st w))
        \<and> selectedAnswers (st w) \<noteq> {} \<and> r \<noteq> Failure
        \<longrightarrow> reflects_history (st (submit_and_settle r w)))
   \<and> currentQuestion (toggleAnswer i s) = currentQuestion s
   \<and> answersHistory (toggleAnswer i s) = answersHistory s
   \<and> (reflects_history s \<longrightarrow> \<not> reflects_history (toggleAnswer i s))"
proof -
  have a: "reflects_history (st (step e w))" if "session_start e w"
    using that
    by (cases "(e, w)" rule: session_start.cases)
       (simp_all add: reflects_history_def handler_defs)
  have b: "reflects_history (st (step ClickPrevious w))"
    if "screen (st w) = Test" "currentQuestion (st w) < length (questions (st w))"
       "currentQuestion (st w) \<noteq> 0"
    using that by (simp add: reflects_history_def handler_defs)
  have c: "reflects_history (st (submit_and_settle r w))"
    if "screen (st w) = Test" "currentQuestion (st w) < length (questions (st w))"
       "selectedAnswers (st w) \<noteq> {}" "r \<noteq> Failure"
    using that by (simp add: submit_and_settle_def reflects_history_def handler_defs)
  have d: "\<not> reflects_history (toggleAnswer i s)" if "reflects_history s"
    using that by (auto simp: reflects_history_def toggleAnswer_def toggle_def)
  show ?thesis
    using a b c d by (simp add: toggleAnswer_def)
qed

lemma unsaved_toggles_state:
  "st (exec unsaved_toggles (init None))
     = (test_state [question_a, question_b] 1)
         \<lparr>currentQuestion := 1, selectedAnswers := {2, 3}, answersHistory := [0 \<mapsto> {1}]\<rparr>"
  by (simp only: unsaved_toggles_def exec_append open_session_world)
     (auto simp: session_defs handler_defs)

text \<open>
  C5, at the run \<open>unsaved_toggles\<close> (question 1 on screen, \<open>{1}\<close> recorded for question 0):
  the session start made selection and history agree, the back button and the submit
  button make them agree again.
\<close>

theorem selection_reflects_history_after_moves_witness:
  "reflects_history (st (step (Settle 0 (StartOk ''s1'' [question_a] 1))
       (exec (butlast (open_session [question_a] 1)) (init None))))
   \<and> reflects_history (st (step ClickPrevious (exec unsaved_toggles (init None))))
   \<and> reflects_history (st (submit_and_settle AnswerOk (exec unsaved_toggles (init None))))
   \<and> \<not> reflects_history (toggleAnswer 1 (test_state [question_a, question_b] 1))"
proof -
  let ?v = "exec (butlast (open_session [question_a] 1)) (init None)"
  let ?w = "exec unsaved_toggles (init None)"
  note t = selection_reflects_history_after_moves
  have "session_start (Settle 0 (StartOk ''s1'' [question_a] 1)) ?v"
    by (simp add: session_defs handler_defs)
  with t [of "Settle 0 (StartOk ''s1'' [question_a] 1)" ?v]
  have 1: "reflects_history (st (step (Settle 0 (StartOk ''s1'' [question_a] 1)) ?v))"
    by blast
  have en: "screen (st ?w) = Test" "currentQuestion (st ?w) < length (questions (st ?w))"
    "currentQuestion (st ?w) \<noteq> 0" "selectedAnswers (st ?w) \<noteq> {}"
    by (simp_all add: unsaved_toggles_state test_state_def)
  from t [of _ ?w AnswerOk] en
  have 2: "reflects_history (st (step ClickPrevious ?w))"
    and 3: "reflects_history (st (submit_and_settle AnswerOk ?w))"
    by simp_all
  have "reflects_history (test_state [question_a, question_b] 1)"
    by (simp add: reflects_history_def test_state_def restore_def)
  with t [of _ _ _ 1 "test_state [question_a, question_b] 1"]
  have 4: "\<not> reflects_history (toggleAnswer 1 (test_state [question_a, question_b] 1))"
    by blast
  from 1 2 3 4 show ?thesis
    by simp
qed

text \<open>
  C5 as stated fails: after the session start and one click on the first option, the
  selection is \<open>{1}\<close> while nothing is recorded for question 0.
\<close>

theorem selection_reflects_history_counterexample:
  "selectedAnswers (st (exec (open_session [question_a, question_b] 1 @ [ClickOption 0])
       (init None))) = {1}
   \<and> currentQuestion (st (exec (open_session [question_a, question_b] 1 @ [ClickOption 0])
       (init None))) = 0
   \<and> answersHistory (st (exec (open_session [question_a, question_b] 1 @ [ClickOption 0])
       (init None))) 0 = None
   \<and> \<not> reflects_history (st (exec (open_session [question_a, question_b] 1 @ [ClickOption 0])
       (init None)))"
  by (simp only: exec_append open_session_world)
     (simp add: session_defs handler_defs reflects_history_def)

subsection \<open>The timer\<close>

lemma timer_resume [simp]: "timer (resume k r w) = timer w"
  by (cases k; cases r) (simp_all add: handler_defs)

lemma timer_handle: "timer (handle e w) = timer w"
  by (cases e) (simp_all add: handler_defs split: option.splits)

lemma timer_armed_ok_init: "timer_armed_ok (init u)"
  by (simp add: timer_armed_ok_def init_def init_state_def loadSpecializations_def)

lemma timer_armed_ok_step: "timer_armed_ok w \<Longrightarrow> timer_armed_ok (step e w)"
  using timer_handle [of e w]
  by (auto simp: timer_armed_ok_def step_def timer_effect_def)

lemma timer_armed_ok_exec: "timer_armed_ok w \<Longrightarrow> timer_armed_ok (exec es w)"
  by (induction es arbitrary: w) (simp_all add: timer_armed_ok_step)

text \<open>Only a session start sets \<open>timeLeft\<close> from a response.\<close>

lemma timeLeft_resume:
  "\<not> (k = K_startTest \<and> (\<exists>sid qs m. r = StartOk sid qs m)) \<Longrightarrow>
   timeLeft (st (resume k r w)) = timeLeft (st w)"
  by (cases k; cases r) (simp_all add: handler_defs)

lemma disarmed_handle:
  assumes "timeLeft (st w) = 0" and "timer w = None" and "\<not> session_start e w"
  shows "timeLeft (st (handle e w)) = 0"
proof (cases e)
  case (Settle i r)
  show ?thesis
  proof (cases "i < length (pending w)")
    case True
    with assms(3) Settle
    have "\<not> (pending w ! i = K_startTest \<and> (\<exists>sid qs m. r = StartOk sid qs m))"
      by auto
    with True Settle assms(1) show ?thesis
      by (simp add: settle_def timeLeft_resume)
  next
    case False
    with Settle assms(1) show ?thesis
      by (simp add: settle_def)
  qed
qed (use assms in \<open>simp_all add: handler_defs\<close>)

lemma disarmed_step:
  assumes "timeLeft (st w) = 0" and "timer w = None" and "\<not> session_start e w"
  shows "timeLeft (st (step e w)) = 0 \<and> timer (step e w) = None"
  using disarmed_handle [OF assms] timer_handle [of e w] assms(2)
  by (simp add: step_def timer_effect_def)

lemma disarmed_exec:
  "timeLeft (st w) = 0 \<Longrightarrow> timer w = None \<Longrightarrow> no_session_start es w \<Longrightarrow>
   timeLeft (st (exec es w)) = 0 \<and> timer (exec es w) = None"
proof (induction es arbitrary: w)
  case Nil
  then show ?case by simp
next
  case (Cons e es)
  from Cons.prems have "timeLeft (st (step e w)) = 0 \<and> timer (step e w) = None"
    by (simp add: disarmed_step)
  with Cons.IH [of "step e w"] Cons.prems show ?case
    by simp
qed

lemma tick_disarmed: "timer w = None \<Longrightarrow> step Tick w = w"
  by (simp add: step_def tick_def timer_effect_def)

text \<open>
  In every state the component reaches from its mounting, the interval is armed exactly
  on the test screen with time left, so there a tick does occur.
\<close>

lemma timer_armed_reachable:
  "timer_armed_ok (exec es (init host))"
  by (rule timer_armed_ok_exec [OF timer_armed_ok_init])

text \<open>
  C6. When a tick occurs (the interval is armed) on the test screen with one second
  left: \<open>handleFinishTest\<close> is called once (one finish request is sent and one handler
  waits for its response), \<open>timeLeft\<close> becomes 0 and the interval is cleared; through any
  later events, until a session start, \<open>timeLeft\<close> stays 0 and a tick does nothing; and
  when the response to that finish request arrives, the screen is the result screen,
  with no user event in between.
\<close>

theorem timer_expiry_fires_once:
  assumes "timer w = Some c" and "screen (st w) = Test" and "timeLeft (st w) = 1"
  shows "requests (step Tick w)
           = requests w @ [PostFinish (telegram_id (userData c)) (sessionId c)]
       \<and> finish_requests (step Tick w) = finish_requests w + 1
       \<and> pending (step Tick w) = pending w @ [K_handleFinishTest]
       \<and> timeLeft (st (step Tick w)) = 0
       \<and> timer (step Tick w) = None
       \<and> (\<forall>es. no_session_start es (step Tick w) \<longrightarrow>
             timeLeft (st (exec es (step Tick w))) = 0
           \<and> step Tick (exec es (step Tick w)) = exec es (step Tick w))
       \<and> screen (st (step (Settle (length (pending w)) (FinishOk res)) (step Tick w))) = Result"
proof -
  have t: "step Tick w =
      w\<lparr>st := (st w)\<lparr>loading := True, timeLeft := 0\<rparr>,
        requests := requests w @ [PostFinish (telegram_id (userData c)) (sessionId c)],
        pending := pending w @ [K_handleFinishTest], timer := None\<rparr>"
    using assms by (simp add: step_def tick_def timer_effect_def handleFinishTest_def)
  have later: "timeLeft (st (exec es (step Tick w))) = 0
           \<and> step Tick (exec es (step Tick w)) = exec es (step Tick w)"
    if "no_session_start es (step Tick w)" for es
    using disarmed_exec [of "step Tick w" es] that tick_disarmed
    by (simp add: t)
  have fin: "screen (st (step (Settle (length (pending w)) (FinishOk res)) (step Tick w))) = Result"
    unfolding t by (simp add: step_def settle_def timer_effect_def handleFinishTest_resume_def)
  have now: "requests (step Tick w)
      = requests w @ [PostFinish (telegram_id (userData c)) (sessionId c)]"
    "finish_requests (step Tick w) = finish_requests w + 1"
    "pending (step Tick w) = pending w @ [K_handleFinishTest]"
    "timeLeft (st (step Tick w)) = 0" "timer (step Tick w) = None"
    unfolding t by (simp_all add: finish_requests_def)
  show ?thesis
    using later fin now by blast
qed

text \<open>
  C6, at the run \<open>last_second\<close>: the 60th tick sends the one finish request, two more
  ticks and a click leave \<open>timeLeft\<close> at 0, and the response shows the result.
\<close>

theorem timer_expiry_fires_once_witness:
  "timeLeft (st (exec last_second (init None))) = 1
   \<and> finish_requests (step Tick (exec last_second (init None))) = 1
   \<and> timeLeft (st (exec [Tick, ClickOption 1, Tick]
         (step Tick (exec last_second (init None))))) = 0
   \<and> screen (st (step (Settle 0 (FinishOk None))
         (step Tick (exec last_second (init None))))) = Result"
proof -
  let ?w = "exec last_second (init None)"
  have h: "timer ?w = Some ((test_state [question_a] 1)\<lparr>selectedAnswers := {1}, timeLeft := 1\<rparr>)"
    "screen (st ?w) = Test" "timeLeft (st ?w) = 1"
    and f: "finish_requests ?w = 0" and p: "length (pending ?w) = 0"
    by (simp_all only: last_second_world) (simp_all add: session_defs finish_requests_def)
  note t = timer_expiry_fires_once [OF h, of None]
  have n: "no_session_start [Tick, ClickOption 1, Tick] (step Tick ?w)"
    by simp
  from t n have 1: "timeLeft (st (exec [Tick, ClickOption 1, Tick] (step Tick ?w))) = 0"
    by blast
  from t have 2: "finish_requests (step Tick ?w) = 1"
    by (simp only: f)
  from t have 3: "screen (st (step (Settle 0 (FinishOk None)) (step Tick ?w))) = Result"
    by (simp only: p)
  from 1 2 3 h(3) show ?thesis
    by simp
qed

subsection \<open>The profile form\<close>

text \<open>
  C8, as the code has it. With \<open>full_name\<close>, \<open>position\<close> or \<open>department\<close> empty,
  \<open>submitUserInfo\<close> does nothing but call \<open>tg?.showAlert\<close>: the click on the button of the
  profile screen sends no request, starts no handler, and leaves every state variable,
  the screen among them, as it was. Inside the host platform the alert is shown; outside
  of it nothing is shown and nothing at all changes.
\<close>

theorem submitUserInfo_rejects_incomplete_profile:
  assumes "full_name (userData (st w)) = [] \<or> position (userData (st w)) = []
           \<or> department (userData (st w)) = []"
  shows "submitUserInfo w
           = (if tg w = None then w else w\<lparr>alerts := alerts w @ [Alert_fill_all_fields]\<rparr>)
       \<and> requests (step ClickUserInfoNext w) = requests w
       \<and> pending (step ClickUserInfoNext w) = pending w
       \<and> st (step ClickUserInfoNext w) = st w
       \<and> timer (step ClickUserInfoNext w) = timer w
       \<and> alerts (step ClickUserInfoNext w)
           = (if screen (st w) = UserInfo \<and> tg w \<noteq> None
              then alerts w @ [Alert_fill_all_fields] else alerts w)"
  using assms
  by (auto simp: submitUserInfo_def showAlert_def step_def timer_effect_def
      split: option.splits)

lemma incomplete_profile_world:
  "tg (exec incomplete_profile (init host)) = host"
  "position (userData (st (exec incomplete_profile (init host)))) = []"
  "screen (st (exec incomplete_profile (init host))) = UserInfo"
  "requests (exec incomplete_profile (init host)) = [GetSpecializations]"
  "pending (exec incomplete_profile (init host)) = []"
  "alerts (exec incomplete_profile (init host)) = []"
  by (simp_all add: incomplete_profile_def init_def init_state_def handler_defs)

text \<open>
  C8, at the run \<open>incomplete_profile\<close> inside the host platform: the position is empty,
  and the click leaves the profile screen on and the only request the one for the
  specializations, and shows the alert.
\<close>

theorem submitUserInfo_rejects_incomplete_profile_witness:
  "position (userData (st (exec incomplete_profile (init (Some (WebApp None)))))) = []
   \<and> screen (st (step ClickUserInfoNext
         (exec incomplete_profile (init (Some (WebApp None)))))) = UserInfo
   \<and> requests (step ClickUserInfoNext (exec incomplete_profile (init (Some (WebApp None)))))
       = [GetSpecializations]
   \<and> alerts (step ClickUserInfoNext (exec incomplete_profile (init (Some (WebApp None)))))
       = [Alert_fill_all_fields]"
proof -
  let ?w = "exec incomplete_profile (init (Some (WebApp None)))"
  have p: "position (userData (st ?w)) = []"
    by (rule incomplete_profile_world)
  from submitUserInfo_rejects_incomplete_profile [of ?w] p
  show ?thesis
    by (simp add: incomplete_profile_world)
qed

text \<open>
  C8 as stated fails in its user-visible rejection: in the run \<open>incomplete_profile\<close>
  outside the host platform the position is empty, and the click on the button shows no
  alert; the world after the click is the world before it.
\<close>

theorem submitUserInfo_silent_counterexample:
  "tg (exec incomplete_profile (init None)) = None
   \<and> position (userData (st (exec incomplete_profile (init None)))) = []
   \<and> screen (st (exec incomplete_profile (init None))) = UserInfo
   \<and> alerts (step ClickUserInfoNext (exec incomplete_profile (init None))) = []
   \<and> step ClickUserInfoNext (exec incomplete_profile (init None))
       = exec incomplete_profile (init None)"
proof -
  let ?w = "exec incomplete_profile (init None)"
  have "step ClickUserInfoNext ?w = ?w"
    by (simp add: step_def timer_effect_def submitUserInfo_def showAlert_def
        incomplete_profile_world)
  then show ?thesis
    by (simp add: incomplete_profile_world)
qed

subsection \<open>Toggling\<close>

lemma toggle_twice: "toggle i (toggle i s) = s"
  by (auto simp: toggle_def)

text \<open>
  C9. On the \<open>Set\<close> objects: after \<open>toggleAnswer\<close> the selection has the index added if it
  was absent and removed if it was present; every other index is in it exactly if it
  was before; every object that existed, and so every entry of the history, also one
  that the selection shared, has the members it had; and a second toggle of the same
  index gives the original selection. The update on values used by the controller is
  that same function, is its own inverse, and leaves the history of the state alone.
\<close>

theorem toggleAnswer_toggles:
  assumes "store_ok h"
  shows "selection_of (toggleAnswer_store i h)
           = (if i \<in> selection_of h then selection_of h - {i} else insert i (selection_of h))
    \<and> (\<forall>j. j \<noteq> i \<longrightarrow>
          (j \<in> selection_of (toggleAnswer_store i h)) = (j \<in> selection_of h))
    \<and> history_of (toggleAnswer_store i h) = history_of h
    \<and> (\<forall>a < length (objects h). objects (toggleAnswer_store i h) ! a = objects h ! a)
    \<and> selection_of (toggleAnswer_store i (toggleAnswer_store i h)) = selection_of h
    \<and> selection_of (toggleAnswer_store i h) = toggle i (selection_of h)
    \<and> selectedAnswers (toggleAnswer i s) = toggle i (selectedAnswers s)
    \<and> answersHistory (toggleAnswer i s) = answersHistory s
    \<and> toggleAnswer i (toggleAnswer i s) = s"
proof -
  have sel: "selection_of (toggleAnswer_store i h') = toggle i (selection_of h')" for h'
    by (simp add: toggleAnswer_store_def selection_of_def Let_def toggle_def)
  have old: "objects (toggleAnswer_store i h) ! a = objects h ! a"
    if "a < length (objects h)" for a
    using that by (simp add: toggleAnswer_store_def Let_def nth_append)
  have "history_of (toggleAnswer_store i h) k = history_of h k" for k
  proof (cases "answersHistory_ref h k")
    case None
    moreover have "answersHistory_ref (toggleAnswer_store i h) = answersHistory_ref h"
      by (simp add: toggleAnswer_store_def Let_def)
    ultimately show ?thesis
      by (simp add: history_of_def)
  next
    case (Some a)
    with assms have "a < length (objects h)"
      by (simp add: store_ok_def)
    have "answersHistory_ref (toggleAnswer_store i h) = answersHistory_ref h"
      by (simp add: toggleAnswer_store_def Let_def)
    with Some old [OF \<open>a < length (objects h)\<close>] show ?thesis
      by (simp add: history_of_def)
  qed
  then have hist: "history_of (toggleAnswer_store i h) = history_of h"
    by (simp add: fun_eq_iff)
  have twice: "selection_of (toggleAnswer_store i (toggleAnswer_store i h)) = selection_of h"
    by (simp add: sel toggle_twice)
  have other: "(j \<in> toggle i (selection_of h)) = (j \<in> selection_of h)" if "j \<noteq> i" for j
    using that by (simp add: toggle_def)
  show ?thesis
    using sel [of h] old hist twice other
    by (simp add: toggleAnswer_def toggle_twice) (simp add: toggle_def)
qed

text \<open>
  C9, at the store \<open>shared_store\<close>, where the selection is the object recorded for
  question 0: toggling index 3 gives the selection \<open>{1}\<close> and leaves \<open>{1, 3}\<close> recorded.
\<close>

theorem toggleAnswer_toggles_witness:
  "store_ok shared_store
   \<and> selectedAnswers_ref shared_store = 0 \<and> answersHistory_ref shared_store 0 = Some 0
   \<and> selection_of (toggleAnswer_store 3 shared_store) = {1}
   \<and> history_of (toggleAnswer_store 3 shared_store) 0 = Some {1, 3}
   \<and> selection_of (toggleAnswer_store 3 (toggleAnswer_store 3 shared_store)) = {1, 3}"
proof -
  have ok: "store_ok shared_store"
    by (simp add: store_ok_def shared_store_def)
  have s: "selection_of shared_store = {1, 3}" "history_of shared_store 0 = Some {1, 3}"
    by (simp_all add: selection_of_def history_of_def shared_store_def)
  from toggleAnswer_toggles [OF ok, of 3] s ok show ?thesis
    by (auto simp: shared_store_def)
qed

subsection \<open>Going back\<close>

text \<open>
  C10. \<open>goToPreviousQuestion\<close> leaves the history as it is, in every state; with the cursor
  past question 0 it moves the cursor one back and sets the selection to the recorded
  entry of that question (empty when there is none), so the result is the same whatever
  the selection was before: toggles that were not submitted are dropped.
\<close>

theorem goToPreviousQuestion_keeps_history:
  "answersHistory (goToPreviousQuestion s) = answersHistory s
   \<and> (0 < currentQuestion s \<longrightarrow>
        currentQuestion (goToPreviousQuestion s) = currentQuestion s - 1
      \<and> selectedAnswers (goToPreviousQuestion s)
          = restore (answersHistory s) (currentQuestion s - 1)
      \<and> goToPreviousQuestion (s\<lparr>selectedAnswers := toggled\<rparr>) = goToPreviousQuestion s)"
  by (simp add: goToPreviousQuestion_def)

text \<open>
  C10, at the run \<open>unsaved_toggles\<close>: on question 1 with the unsubmitted selection
  \<open>{2, 3}\<close>, going back keeps the history \<open>[0 \<mapsto> {1}]\<close> and shows question 0 with \<open>{1}\<close>.
\<close>

theorem goToPreviousQuestion_keeps_history_witness:
  "currentQuestion (st (exec unsaved_toggles (init None))) = 1
   \<and> selectedAnswers (st (exec unsaved_toggles (init None))) = {2, 3}
   \<and> answersHistory (goToPreviousQuestion (st (exec unsaved_toggles (init None))))
       = [0 \<mapsto> {1}]
   \<and> currentQuestion (goToPreviousQuestion (st (exec unsaved_toggles (init None)))) = 0
   \<and> selectedAnswers (goToPreviousQuestion (st (exec unsaved_toggles (init None)))) = {1}"
proof -
  let ?s = "st (exec unsaved_toggles (init None))"
  have s: "currentQuestion ?s = 1" "selectedAnswers ?s = {2, 3}"
    "answersHistory ?s = [0 \<mapsto> {1}]"
    by (simp_all add: unsaved_toggles_state)
  from goToPreviousQuestion_keeps_history [of ?s] s show ?thesis
    by (simp add: restore_def)
qed

subsection \<open>Submissions that overlap other events\<close>

text \<open>
  When the response to a submission is the next event after the click, the cursor
  stays inside the list of questions, and on the last question the submission sends the
  finish request instead of moving the cursor.
\<close>

lemma submit_and_settle_cursor:
  assumes "currentQuestion (st w) < length (questions (st w))"
  shows "currentQuestion (st (submit_and_settle r w)) < length (questions (st (submit_and_settle r w)))"
  using assms by (simp add: submit_and_settle_def handler_defs)

lemma submit_and_settle_last_question:
  assumes "screen (st w) = Test" and "Suc (currentQuestion (st w)) = length (questions (st w))"
    and "selectedAnswers (st w) \<noteq> {}" and "r \<noteq> Failure"
  shows "currentQuestion (st (submit_and_settle r w)) = currentQuestion (st w)
       \<and> finish_requests (submit_and_settle r w) = finish_requests w + 1"
  using assms by (simp add: submit_and_settle_def handler_defs finish_requests_def)

text \<open>
  The history is written by the remainder of \<open>submitAnswer\<close> and emptied by a session
  start; no other event changes it.
\<close>

lemma answersHistory_resume:
  "(\<forall>c. k \<noteq> K_submitAnswer c) \<Longrightarrow> \<not> (k = K_startTest \<and> (\<exists>sid qs m. r = StartOk sid qs m)) \<Longrightarrow>
   answersHistory (st (resume k r w)) = answersHistory (st w)"
  by (cases k; cases r) (simp_all add: handler_defs)

lemma answersHistory_step:
  assumes "\<not> session_start e w"
    and "\<And>i r c. e = Settle i r \<Longrightarrow> i < length (pending w) \<Longrightarrow> pending w ! i \<noteq> K_submitAnswer c"
  shows "answersHistory (st (step e w)) = answersHistory (st w)"
proof (cases e)
  case (Settle i r)
  show ?thesis
  proof (cases "i < length (pending w)")
    case True
    with assms Settle
    have "\<forall>c. pending w ! i \<noteq> K_submitAnswer c"
      and "\<not> (pending w ! i = K_startTest \<and> (\<exists>sid qs m. r = StartOk sid qs m))"
      by auto
    with True Settle show ?thesis
      by (simp add: step_def timer_effect_def settle_def answersHistory_resume)
  next
    case False
    with Settle show ?thesis
      by (simp add: step_def timer_effect_def settle_def)
  qed
qed (simp_all add: handler_defs split: option.splits)

text \<open>
  Over operations handled to their end one after the other, the cursor stays inside the
  list, the history holds for every position the set last recorded for it, and a move of
  the cursor shows that set (nothing when there is none): the round trip of the history.
\<close>

lemma cursor_in_range_without_overlap:
  "currentQuestion (st w) < length (questions (st w)) \<Longrightarrow>
   currentQuestion (st (run_ops xs w)) < length (questions (st (run_ops xs w)))"
proof (induction xs arbitrary: w)
  case Nil
  then show ?case by simp
next
  case (Cons x xs)
  from Cons.prems
  have "currentQuestion (st (do_op x w)) < length (questions (st (do_op x w)))"
    by (cases x) (simp_all add: submit_and_settle_cursor, auto simp: handler_defs)
  then show ?case
    by (simp add: Cons.IH)
qed

lemma history_do_op:
  "answersHistory (st (do_op x w)) =
     (if x = Submit \<and> submit_enabled w
      then (answersHistory (st w))(currentQuestion (st w) \<mapsto> selectedAnswers (st w))
      else answersHistory (st w))"
  by (cases x) (auto simp: submit_enabled_def submit_and_settle_def handler_defs)

lemma history_is_recorded:
  "answersHistory (st (run_ops xs w)) k =
     (case recorded xs w k of Some s \<Rightarrow> Some s | None \<Rightarrow> answersHistory (st w) k)"
proof (induction xs arbitrary: w)
  case Nil
  then show ?case by simp
next
  case (Cons x xs)
  have "answersHistory (st (run_ops (x # xs) w)) k
      = (case recorded xs (do_op x w) k of
           Some s \<Rightarrow> Some s | None \<Rightarrow> answersHistory (st (do_op x w)) k)"
    by (simp add: Cons.IH)
  then show ?case
    by (cases "recorded xs (do_op x w) k") (simp_all add: history_do_op)
qed

lemma moved_reflects:
  assumes "currentQuestion (st (do_op x w)) \<noteq> currentQuestion (st w)"
  shows "reflects_history (st (do_op x w))"
  using assms
  by (cases x)
     (auto simp: reflects_history_def submit_and_settle_def handler_defs split: if_splits)

lemma run_ops_append: "run_ops (xs @ ys) w = run_ops ys (run_ops xs w)"
  by (induction xs arbitrary: w) simp_all

lemma history_round_trip_without_overlap:
  assumes "answersHistory (st w) = Map.empty"
    and "currentQuestion (st (run_ops (xs @ [x]) w)) \<noteq> currentQuestion (st (run_ops xs w))"
  shows "selectedAnswers (st (run_ops (xs @ [x]) w))
       = (case recorded (xs @ [x]) w (currentQuestion (st (run_ops (xs @ [x]) w))) of
            Some s \<Rightarrow> s | None \<Rightarrow> {})"
proof -
  have "reflects_history (st (run_ops (xs @ [x]) w))"
    using assms(2) moved_reflects [of x "run_ops xs w"] by (simp add: run_ops_append)
  then show ?thesis
    using history_is_recorded [of "xs @ [x]" w] assms(1)
    by (simp add: reflects_history_def restore_def split: option.splits)
qed

text \<open>
  C7, where the code fails it. In the run \<open>double_submit\<close> both suspended calls of
  \<open>submitAnswer\<close> were made on question 0 of two: each passes its test
  \<open>currentQuestion < questions.length - 1\<close> on the number of its closure and each adds one
  to the cursor of the moment. The cursor ends at 2, the length of the list, on the test
  screen, and no finish request was sent.
\<close>

theorem cursor_past_last_question:
  "length (questions (st (exec double_submit (init None)))) = 2
   \<and> currentQuestion (st (exec double_submit (init None))) = 2
   \<and> screen (st (exec double_submit (init None))) = Test
   \<and> finish_requests (exec double_submit (init None)) = 0"
  by (simp only: double_submit_def exec_append open_session_world)
     (simp add: session_defs handler_defs finish_requests_def)

text \<open>
  C4, where the code fails it. In the run \<open>back_during_submit\<close> the submission made on
  question 1 with \<open>{2}\<close> resumes after the learner went back to question 0: it records
  \<open>{2}\<close> for question 1, adds one to the cursor of the moment, which arrives at question 1,
  and restores what its closure held for question 2, nothing. Question 1 is on screen
  with an empty selection while \<open>{2}\<close> is recorded for it.
\<close>

theorem restored_selection_not_recorded:
  "currentQuestion (st (exec back_during_submit (init None))) = 1
   \<and> answersHistory (st (exec back_during_submit (init None))) 1 = Some {2}
   \<and> selectedAnswers (st (exec back_during_submit (init None))) = {}
   \<and> screen (st (exec back_during_submit (init None))) = Test"
  by (simp only: back_during_submit_def exec_append open_session_world)
     (simp add: session_defs handler_defs)

end
